theory Spec2Isabelle
  imports Complex_Main "HOL-Library.Word"
begin

section \<open>The action primitives of the reconnect daemon (actions.c)\<close>

text \<open>
  The file actions.c holds the primitives that perform an effect: \<open>run_command\<close>,
  \<open>log_to_file\<close> and \<open>influx\<close> (and two calls to the init system, which no property
  below is about). Each of them is a sequence of system calls. The embedding keeps that
  sequence: a model takes, besides the arguments of the C function, the answers of the
  operating system (an environment record), and gives back the value the C function
  returns, the state it leaves behind and the list of calls it made, in order.

  C strings are lists of the bytes before the terminating NUL, so \<open>strlen\<close> is
  \<open>length\<close>. A dereference of a NULL pointer is the end of the process
  (\<open>Crashed\<close>), as on the platform the daemon is written for.
\<close>

abbreviation LF :: char where "LF \<equiv> CHR 0x0A"
abbreviation CR :: char where "CR \<equiv> CHR 0x0D"

datatype errno = EAGAIN | EWOULDBLOCK | EINPROGRESS | EOTHER

datatype wait_flag = WNOHANG | WUNTRACED

text \<open>The calls a primitive makes, with the arguments the properties are about.\<close>

datatype event =
    EvPipe
  | EvFork
  | EvDup2
  | EvGetpwnam string
  | EvSetuid nat
  | EvExecl string "string list"
  | EvWaitpid int wait_flag
  | EvUsleep nat
  | EvClock
  | EvKillTerm int
  | EvRead int
  | EvWrite int string
  | EvClose int
  | EvAccess string
  | EvFopen string
  | EvFputs string
  | EvFclose
  | EvChown string nat nat
  | EvSocket
  | EvEpollCreate
  | EvEpollCtl int int
  | EvConnect int
  | EvEpollWait int int
  | EvLogError string

text \<open>What a call of a primitive comes to, seen from the process that made it.\<close>

datatype outcome =
    Returned int       \<comment> \<open>the C function returned this value\<close>
  | Execs string nat   \<comment> \<open>the process image was replaced by \<open>sh -c\<close> of the command, under this uid\<close>
  | Crashed            \<comment> \<open>the process dereferenced NULL\<close>
  | Pending            \<comment> \<open>the answers of the environment ran out before the call returned\<close>

record passwd =
  pw_uid :: nat
  pw_gid :: nat

subsection \<open>log_to_file\<close>

record action_log =
  path :: string
  header :: "string option"
  username :: "string option"

record log_file =
  content :: string
  f_uid :: nat
  f_gid :: nat

type_synonym filesystem = "string \<rightharpoonup> log_file"

text \<open>
  The answers of the system to one call of \<open>log_to_file\<close>: the account database, whether
  \<open>fopen\<close> gives a stream, how many of the bytes handed to \<open>fputs\<close> reach the file
  when the stream is closed, what \<open>fclose\<close> and \<open>chown\<close> return, and the ids a file
  created by the daemon gets.
\<close>

record log_env =
  l_getpwnam :: "string \<Rightarrow> passwd option"
  l_fopen_ok :: bool
  l_flushed :: nat
  l_fclose_ret :: int
  l_chown_ret :: int
  l_uid :: nat
  l_gid :: nat

text \<open>\<open>fopen(path, "a")\<close>: the file is created empty when it is not there.\<close>

definition fopen_append :: "log_env \<Rightarrow> filesystem \<Rightarrow> string \<Rightarrow> filesystem" where
  "fopen_append env fs p =
     (case fs p of
        None \<Rightarrow> fs(p \<mapsto> \<lparr>content = [], f_uid = l_uid env, f_gid = l_gid env\<rparr>)
      | Some f \<Rightarrow> fs)"

text \<open>Closing the stream appends the bytes that are flushed.\<close>

definition flush_append :: "log_env \<Rightarrow> filesystem \<Rightarrow> string \<Rightarrow> string list \<Rightarrow> filesystem" where
  "flush_append env fs p puts =
     (case fs p of
        None \<Rightarrow> fs
      | Some f \<Rightarrow> fs(p \<mapsto> f\<lparr>content := content f @ take (l_flushed env) (concat puts)\<rparr>))"

definition chown_file :: "log_env \<Rightarrow> filesystem \<Rightarrow> string \<Rightarrow> passwd \<Rightarrow> filesystem" where
  "chown_file env fs p pw =
     (if l_chown_ret env < 0 then fs
      else (case fs p of
              None \<Rightarrow> fs
            | Some f \<Rightarrow> fs(p \<mapsto> f\<lparr>f_uid := pw_uid pw, f_gid := pw_gid pw\<rparr>)))"

text \<open>
  \<open>log_to_file\<close> (actions.c, lines 221 to 261). The result is the outcome, the file system
  afterwards and the calls made.
\<close>

definition log_to_file ::
  "log_env \<Rightarrow> filesystem \<Rightarrow> action_log \<Rightarrow> string \<Rightarrow> outcome \<times> filesystem \<times> event list" where
  "log_to_file env fs action_log actual_line =
     (let is_new = (fs (path action_log) = None);
          tr0 = [EvAccess (path action_log), EvFopen (path action_log)]
      in if \<not> l_fopen_ok env then
           (Returned 0, fs, tr0 @ [EvLogError ''Unable to open file''])
         else
           let fs1 = fopen_append env fs (path action_log);
               puts_header = (if is_new \<and> header action_log \<noteq> None
                              then [the (header action_log), [LF]] else []);
               puts = puts_header @ [actual_line, [LF]];
               fs2 = flush_append env fs1 (path action_log) puts;
               ret_code = (if l_fclose_ret env = 0 then 1 else 0);
               tr1 = tr0 @ map EvFputs puts @ [EvFclose]
           in if is_new \<and> username action_log \<noteq> None then
                (let u = the (username action_log) in
                 case l_getpwnam env u of
                   None \<Rightarrow> (Crashed, fs2, tr1 @ [EvGetpwnam u])
                 | Some user_passwd \<Rightarrow>
                     let tr2 = tr1 @ [EvGetpwnam u,
                                      EvChown (path action_log) (pw_uid user_passwd) (pw_gid user_passwd)];
                         fs3 = chown_file env fs2 (path action_log) user_passwd
                     in if l_chown_ret env < 0
                        then (Returned ret_code, fs3, tr2 @ [EvLogError ''Unable to chown log file''])
                        else (Returned ret_code, fs3, tr2))
              else (Returned ret_code, fs2, tr1))"

subsection \<open>run_command\<close>

record action_cmd =
  command :: string
  user :: "string option"

text \<open>
  One turn of the polling loop: what \<open>waitpid(pid, NULL, WNOHANG)\<close> returns and, when
  the loop body runs, the value \<open>calculate_difference_ms(start, now)\<close> gives after the
  sleep (the function is part of util.c, which is not among the sources: its value is
  an answer of the environment). The status of the child is in \<open>wp_status\<close>; the source
  passes NULL for it, so the model never reads the field.
\<close>

record poll =
  wp_ret :: int
  wp_status :: int
  diff_ms :: "32 word"

text \<open>
  The answers of the system to one call of \<open>run_command\<close>. \<open>c_fork_ret\<close> is the value
  of \<open>fork\<close> in the process that is followed: negative when no child was made, 0 in
  the child, the child's pid in the parent. \<open>c_reads\<close> are the values of the successive
  \<open>read\<close> calls on the pipe.
\<close>

record cmd_env =
  c_pipe_ret :: int
  c_pipe_rd :: int
  c_pipe_wr :: int
  c_fork_ret :: int
  c_getpwnam :: "string \<Rightarrow> passwd option"
  c_setuid_ret :: int
  c_uid :: nat
  c_execl_ok :: bool
  c_polls :: "poll list"
  c_reads :: "int list"

datatype poll_end = Reaped int | TimedOut | WaitFailed | Unfinished

text \<open>
  The loop of lines 183 to 202. The test \<open>res < 0\<close> stands inside a loop that runs
  only while \<open>res = 0\<close>; it is kept as the source has it.
\<close>

fun poll_loop :: "int \<Rightarrow> 32 word \<Rightarrow> poll list \<Rightarrow> event list \<Rightarrow> poll_end \<times> event list" where
  "poll_loop pid timeout_ms [] tr = (Unfinished, tr)"
| "poll_loop pid timeout_ms (p # ps) tr =
     (let res = wp_ret p; tr1 = tr @ [EvWaitpid pid WNOHANG] in
      if res = 0 then
        (if res < 0 then (WaitFailed, tr1 @ [EvLogError ''Unable to wait for pid''])
         else
           let tr2 = tr1 @ [EvUsleep 100000, EvClock] in
           if timeout_ms \<le> diff_ms p then
             (TimedOut, tr2 @ [EvLogError ''Command took too long'',
                               EvKillTerm pid, EvWaitpid pid WUNTRACED])
           else poll_loop pid timeout_ms ps tr2)
      else (Reaped res, tr1))"

text \<open>The loop of lines 206 to 210: read the pipe until \<open>read\<close> returns 0 or less.\<close>

fun drain :: "int \<Rightarrow> int list \<Rightarrow> event list \<Rightarrow> event list option" where
  "drain fd [] tr = None"
| "drain fd (bytes_read # rs) tr =
     (if bytes_read > 0 then drain fd rs (tr @ [EvRead fd]) else Some (tr @ [EvRead fd]))"

text \<open>The child, lines 148 to 166.\<close>

definition run_child :: "cmd_env \<Rightarrow> action_cmd \<Rightarrow> string \<Rightarrow> event list \<Rightarrow> outcome \<times> event list" where
  "run_child env cmd actual_command tr =
     (let tr1 = tr @ [EvDup2];
          exec = (\<lambda>uid tr2.
             let tr3 = tr2 @ [EvExecl ''/bin/sh'' [''sh'', ''-c'', actual_command]] in
             if c_execl_ok env then (Execs actual_command uid, tr3)
             else (Returned 0, tr3 @ [EvLogError ''execl failed.'']))
      in if user cmd \<noteq> None then
           (let u = the (user cmd) in
            case c_getpwnam env u of
              None \<Rightarrow> (Crashed, tr1 @ [EvGetpwnam u])
            | Some a \<Rightarrow>
                exec (if c_setuid_ret env = 0 then pw_uid a else c_uid env)
                     (tr1 @ [EvGetpwnam u, EvSetuid (pw_uid a)]))
         else exec (c_uid env) tr1)"

text \<open>The parent, lines 167 to 216.\<close>

definition run_parent :: "cmd_env \<Rightarrow> int \<Rightarrow> 32 word \<Rightarrow> event list \<Rightarrow> outcome \<times> event list" where
  "run_parent env pid timeout_ms tr =
     (case poll_loop pid timeout_ms (c_polls env) (tr @ [EvClose (c_pipe_wr env), EvClock]) of
        (Reaped res, tr1) \<Rightarrow>
          (case drain (c_pipe_rd env) (c_reads env) tr1 of
             None \<Rightarrow> (Pending, tr1)
           | Some tr2 \<Rightarrow> (Returned (if res = pid then 1 else 0), tr2 @ [EvClose (c_pipe_rd env)]))
      | (TimedOut, tr1) \<Rightarrow> (Returned 0, tr1)
      | (WaitFailed, tr1) \<Rightarrow> (Returned 0, tr1)
      | (Unfinished, tr1) \<Rightarrow> (Pending, tr1))"

text \<open>\<open>run_command\<close> (actions.c, lines 132 to 219).\<close>

definition run_command ::
  "cmd_env \<Rightarrow> action_cmd \<Rightarrow> 32 word \<Rightarrow> string \<Rightarrow> outcome \<times> event list" where
  "run_command env cmd timeout_ms actual_command =
     (if c_pipe_ret env \<noteq> 0 then
        (Returned 0, [EvPipe, EvLogError ''Unable to create pipe to child''])
      else
        let pid = c_fork_ret env in
        if pid < 0 then (Returned 0, [EvPipe, EvFork, EvLogError ''Unable to fork.''])
        else if pid = 0 then run_child env cmd actual_command [EvPipe, EvFork]
        else run_parent env pid timeout_ms [EvPipe, EvFork])"

subsection \<open>influx\<close>

text \<open>
  The endpoint, with the three descriptors of its connection. The budget
  \<open>timeout\<close> is a C \<open>float\<close> of seconds; the model computes with real numbers, so the
  rounding of the subtractions is left out. The times are what \<open>time()\<close> returns, whole
  seconds.
\<close>

record action_influx =
  host :: string
  port :: nat
  endpoint :: string
  authorization :: string
  timeout :: real
  conn_socket :: int
  conn_epoll_write_fd :: int
  conn_epoll_read_fd :: int

text \<open>
  One turn of a sending loop: what \<open>write\<close> returns and the \<open>errno\<close> it leaves; and, for
  a turn that waits, the time before \<open>epoll_wait\<close>, what \<open>epoll_wait\<close> returns and
  the time after it.
\<close>

record wstep =
  w_ret :: int
  w_errno :: errno
  w_t1 :: int
  w_ready :: int
  w_t2 :: int

text \<open>
  One turn of the receiving loop: what \<open>read\<close> returns, its \<open>errno\<close>, the bytes it left
  in \<open>answer\<close>; and, for a turn that waits, the time before and the value of
  \<open>epoll_wait\<close>.
\<close>

record rstep =
  r_ret :: int
  r_errno :: errno
  r_buf :: string
  r_t1 :: int
  r_ready :: int

text \<open>
  The answers of the system to one call of \<open>influx\<close>: what \<open>to_sockaddr\<close> and
  \<open>resolve_hostname\<close> return (both are part of util.c, which is not among the
  sources), the descriptors that \<open>socket\<close> and \<open>epoll_create\<close> give, the value and
  \<open>errno\<close> of \<open>connect\<close>, the times around the wait for the connection and the value
  of that wait, and the turns of the three loops.
\<close>

record influx_env =
  i_to_sockaddr :: int
  i_resolve_hostname :: int
  i_socket :: int
  i_epoll_w :: int
  i_epoll_r :: int
  i_connect_ret :: int
  i_connect_errno :: errno
  i_conn_t1 :: int
  i_conn_ready :: int
  i_conn_t2 :: int
  i_header :: "wstep list"
  i_body :: "wstep list"
  i_read :: "rstep list"

text \<open>
  Modelled from the spec: the macro \<open>CLOSE\<close> comes from actions.h, which is not among the
  sources. The specification says of it that the connection is closed and the
  connection field of the endpoint cleared; \<open>influx\<close> takes a socket that is 0 or less
  for no connection.
\<close>

definition CLOSE :: "action_influx \<Rightarrow> action_influx \<times> event list" where
  "CLOSE action = (action\<lparr>conn_socket := - 1\<rparr>, [EvClose (conn_socket action)])"

text \<open>How a phase of \<open>influx\<close> ends: it goes on to the next one, or the function returns,
  or the answers of the environment have run out.\<close>

datatype 'a phase =
    Next 'a
  | Ret int action_influx "event list"
  | Wait "event list"

text \<open>
  The conversion of a \<open>double\<close> to the 32-bit \<open>int\<close> that \<open>epoll_wait\<close> takes: the
  fraction is dropped. For a value outside the range of \<open>int\<close> C defines no result;
  the conversion instruction of the platform gives the least \<open>int\<close>.
\<close>

definition trunc_ms :: "real \<Rightarrow> int" where
  "trunc_ms x =
     (let n = (if 0 \<le> x then \<lfloor>x\<rfloor> else \<lceil>x\<rceil>)
      in if - 2147483648 \<le> n \<and> n \<le> 2147483647 then n else - 2147483648)"

text \<open>\<open>snprintf(buf, n, ...)\<close>: at most \<open>n - 1\<close> bytes of the text, then the NUL.\<close>

definition snprintf :: "nat \<Rightarrow> string \<Rightarrow> string" where
  "snprintf n text = (if n = 0 then [] else take (n - 1) text)"

text \<open>The conversions \<open>%d\<close> and \<open>%zd\<close> of a number that is not negative.\<close>

fun dec :: "nat \<Rightarrow> string" where
  "dec n = (if n < 10 then [''0123456789'' ! n]
            else dec (n div 10) @ [''0123456789'' ! (n mod 10)])"

declare dec.simps [simp del]

text \<open>Lines 354 to 366: the body and the header, as the two buffers hold them.\<close>

definition influx_body :: "string \<Rightarrow> string" where
  "influx_body actual_line =
     (let line_len = length actual_line + 1
      in snprintf line_len (actual_line @ [LF]))"

definition influx_header :: "action_influx \<Rightarrow> string \<Rightarrow> string" where
  "influx_header action body =
     snprintf 256
       (''POST '' @ endpoint action @ '' HTTP/1.1'' @ [CR, LF] @
        ''Host: '' @ host action @ '':'' @ dec (port action) @ [CR, LF] @
        ''Content-Length: '' @ dec (length body) @ [CR, LF] @
        ''Authorization: '' @ authorization action @ [CR, LF, CR, LF])"

text \<open>
  Lines 269 to 352: the connection is made when the endpoint has none. The result is
  the endpoint, the budget that is left and the calls made. The address family only
  selects the size of the address handed to \<open>connect\<close>; it is left out.
\<close>

definition influx_connect ::
  "influx_env \<Rightarrow> action_influx \<Rightarrow> (action_influx \<times> real \<times> event list) phase" where
  "influx_connect env action =
     (let timeout_left = timeout action in
      if conn_socket action \<le> 0 then
        (if i_to_sockaddr env = 0 \<and> i_resolve_hostname env = 0 then
           Ret 0 action [EvLogError ''Unable to get an IP'']
         else
           let a1 = action\<lparr>conn_socket := i_socket env\<rparr> in
           if conn_socket a1 < 0 then Ret 0 a1 [EvSocket]
           else
             let a2 = a1\<lparr>conn_epoll_write_fd := i_epoll_w env,
                          conn_epoll_read_fd := i_epoll_r env\<rparr>;
                 tr = [EvSocket, EvEpollCreate, EvEpollCreate,
                       EvEpollCtl (conn_epoll_write_fd a2) (conn_socket a2),
                       EvEpollCtl (conn_epoll_read_fd a2) (conn_socket a2),
                       EvClock, EvConnect (conn_socket a2)];
                 s = i_connect_ret env
             in if s = 0 then Next (a2, timeout_left, tr)
                else if s = - 1 \<and> i_connect_errno env = EINPROGRESS then
                  (let tr1 = tr @ [EvEpollWait (conn_epoll_write_fd a2) 10000] in
                   if i_conn_ready env \<le> 0 then
                     (case CLOSE a2 of (a3, evs) \<Rightarrow>
                        Ret 0 a3 (tr1 @ [EvLogError ''Unable to connect''] @ evs))
                   else
                     Next (a2, timeout_left - real_of_int (i_conn_t2 env - i_conn_t1 env),
                           tr1 @ [EvClock]))
                else
                  (case CLOSE a2 of (a3, evs) \<Rightarrow>
                     Ret 0 a3 (tr @ [EvLogError ''Unable to connect''] @ evs)))
      else Next (action, timeout_left, []))"

text \<open>
  Lines 368 to 400, and again lines 402 to 435: the two sending loops are the same text,
  the first on \<open>header\<close>, the second on \<open>body\<close>; \<open>buf\<close> is the buffer.
\<close>

fun send_loop ::
  "action_influx \<Rightarrow> string \<Rightarrow> real \<Rightarrow> wstep list \<Rightarrow> event list \<Rightarrow> (real \<times> event list) phase" where
  "send_loop action buf timeout_left [] tr = Wait tr"
| "send_loop action buf timeout_left (s # ss) tr =
     (let written_bytes = w_ret s;
          tr1 = tr @ [EvWrite (conn_socket action) buf]
      in if written_bytes = - 1 \<and> (w_errno s = EWOULDBLOCK \<or> w_errno s = EAGAIN) then
           (let tr2 = tr1 @ [EvClock,
                             EvEpollWait (conn_epoll_write_fd action) (trunc_ms (timeout_left * 1000))]
            in if w_ready s \<le> 0 then
                 (case CLOSE action of (a', evs) \<Rightarrow>
                    Ret 0 a' (tr2 @ [EvLogError ''Timeout while waiting''] @ evs))
               else
                 let timeout_left' = timeout_left - real_of_int (w_t2 s - w_t1 s) in
                 if timeout_left' \<le> 0 then
                   Ret 0 action (tr2 @ [EvClock, EvLogError ''Timeout''])
                 else send_loop action buf timeout_left' ss (tr2 @ [EvClock]))
         else if written_bytes = int (length buf) then Next (timeout_left, tr1)
         else
           (case CLOSE action of (a', evs) \<Rightarrow>
              Ret 0 a' (tr1 @ [EvLogError ''Unable to send''] @ evs)))"

text \<open>Lines 442 to 470: the receiving loop; it gives the text in \<open>answer\<close>.\<close>

fun recv_loop ::
  "action_influx \<Rightarrow> real \<Rightarrow> rstep list \<Rightarrow> event list \<Rightarrow> (string \<times> event list) phase" where
  "recv_loop action timeout_left [] tr = Wait tr"
| "recv_loop action timeout_left (s # ss) tr =
     (let read_bytes = r_ret s;
          tr1 = tr @ [EvRead (conn_socket action)]
      in if read_bytes = - 1 \<and> (r_errno s = EWOULDBLOCK \<or> r_errno s = EAGAIN) then
           (let tr2 = tr1 @ [EvClock,
                             EvEpollWait (conn_epoll_read_fd action) (trunc_ms (timeout_left * 1000))]
            in if r_ready s \<le> 0 then
                 (case CLOSE action of (a', evs) \<Rightarrow>
                    Ret 0 a' (tr2 @ [EvLogError ''Timeout for an answer''] @ evs))
               else recv_loop action timeout_left ss tr2)
         else if read_bytes > 22 then Next (take (nat read_bytes) (r_buf s), tr1)
         else
           (case CLOSE action of (a', evs) \<Rightarrow>
              Ret 0 a' (tr1 @ [EvLogError ''Unable to receive answer''] @ evs)))"

text \<open>
  \<open>influx\<close> (actions.c, lines 263 to 484): the value returned, the endpoint as the call
  leaves it, and the calls made.
\<close>

definition influx ::
  "influx_env \<Rightarrow> action_influx \<Rightarrow> string \<Rightarrow> outcome \<times> action_influx \<times> event list" where
  "influx env action actual_line =
     (case influx_connect env action of
        Ret r a tr \<Rightarrow> (Returned r, a, tr)
      | Wait tr \<Rightarrow> (Pending, action, tr)
      | Next (a, tl0, tr0) \<Rightarrow>
          let body = influx_body actual_line;
              header = influx_header a body
          in (case send_loop a header tl0 (i_header env) tr0 of
                Ret r a' tr \<Rightarrow> (Returned r, a', tr)
              | Wait tr \<Rightarrow> (Pending, a, tr)
              | Next (tl1, tr1) \<Rightarrow>
                  (case send_loop a body tl1 (i_body env) tr1 of
                     Ret r a' tr \<Rightarrow> (Returned r, a', tr)
                   | Wait tr \<Rightarrow> (Pending, a, tr)
                   | Next (tl2, tr2) \<Rightarrow>
                       (case recv_loop a tl2 (i_read env) tr2 of
                          Ret r a' tr \<Rightarrow> (Returned r, a', tr)
                        | Wait tr \<Rightarrow> (Pending, a, tr)
                        | Next (answer, tr3) \<Rightarrow>
                            if take 23 answer = ''HTTP/1.1 204 No Content'' then
                              (Returned 1, a, tr3)
                            else
                              (case CLOSE a of (a', evs) \<Rightarrow>
                                 (Returned 0, a', tr3 @ [EvLogError ''Not successfull writing to influxdb''] @ evs))))))"

section \<open>Notions the properties use\<close>

text \<open>
  A run of \<open>run_command\<close> drains the pipe while it polls when some read of the pipe is
  followed, later in the run, by a non-blocking \<open>waitpid\<close>.
\<close>

fun is_pipe_read :: "event \<Rightarrow> bool" where
  "is_pipe_read (EvRead fd) = True"
| "is_pipe_read e = False"

fun is_poll :: "event \<Rightarrow> bool" where
  "is_poll (EvWaitpid pid WNOHANG) = True"
| "is_poll e = False"

fun drains_while_polling :: "event list \<Rightarrow> bool" where
  "drains_while_polling [] = False"
| "drains_while_polling (e # es) =
     ((is_pipe_read e \<and> list_ex is_poll es) \<or> drains_while_polling es)"

text \<open>
  A turn of a sending loop is a short write on \<open>buf\<close> when \<open>write\<close> returned neither
  \<open>-1\<close> with a would-block \<open>errno\<close> nor the length of \<open>buf\<close>.
\<close>

definition short_write :: "string \<Rightarrow> wstep \<Rightarrow> bool" where
  "short_write buf s =
     (\<not> (w_ret s = - 1 \<and> (w_errno s = EWOULDBLOCK \<or> w_errno s = EAGAIN)) \<and>
      w_ret s \<noteq> int (length buf))"

text \<open>The strings handed to \<open>fputs\<close> in a run, in order.\<close>

fun fputs_of :: "event list \<Rightarrow> string list" where
  "fputs_of [] = []"
| "fputs_of (EvFputs s # es) = s # fputs_of es"
| "fputs_of (e # es) = fputs_of es"

section \<open>Concrete runs\<close>

text \<open>
  An endpoint with a connection (socket 5, watchers 6 and 7) and a budget of one second;
  the turns of the loops; and an environment built from the turns of the three loops.
\<close>

definition ex_endpoint :: action_influx where
  "ex_endpoint = \<lparr>host = ''db'', port = 8086, endpoint = ''/write'',
     authorization = ''Token t'', timeout = 1,
     conn_socket = 5, conn_epoll_write_fd = 6, conn_epoll_read_fd = 7\<rparr>"

definition would_block :: "int \<Rightarrow> int \<Rightarrow> int \<Rightarrow> wstep" where
  "would_block t1 ready t2 =
     \<lparr>w_ret = - 1, w_errno = EAGAIN, w_t1 = t1, w_ready = ready, w_t2 = t2\<rparr>"

definition wrote :: "int \<Rightarrow> wstep" where
  "wrote n = \<lparr>w_ret = n, w_errno = EOTHER, w_t1 = 0, w_ready = 0, w_t2 = 0\<rparr>"

definition no_data :: "int \<Rightarrow> int \<Rightarrow> rstep" where
  "no_data t1 ready = \<lparr>r_ret = - 1, r_errno = EAGAIN, r_buf = [], r_t1 = t1, r_ready = ready\<rparr>"

definition got :: "string \<Rightarrow> rstep" where
  "got s = \<lparr>r_ret = int (length s), r_errno = EOTHER, r_buf = s, r_t1 = 0, r_ready = 0\<rparr>"

definition ex_env :: "wstep list \<Rightarrow> wstep list \<Rightarrow> rstep list \<Rightarrow> influx_env" where
  "ex_env hs bs rs =
     \<lparr>i_to_sockaddr = 1, i_resolve_hostname = 1, i_socket = 5, i_epoll_w = 6, i_epoll_r = 7,
      i_connect_ret = 0, i_connect_errno = EOTHER, i_conn_t1 = 0, i_conn_ready = 1, i_conn_t2 = 0,
      i_header = hs, i_body = bs, i_read = rs\<rparr>"

text \<open>A log target whose owner is no account of the system, and a system that says so.\<close>

definition ex_log :: action_log where
  "ex_log = \<lparr>path = ''/var/log/srd.log'', header = Some ''time,event'', username = Some ''ghost''\<rparr>"

definition ex_log_env :: log_env where
  "ex_log_env = \<lparr>l_getpwnam = (\<lambda>u. None), l_fopen_ok = True, l_flushed = 100,
     l_fclose_ret = 0, l_chown_ret = 0, l_uid = 0, l_gid = 0\<rparr>"

text \<open>
  A system with the one account \<open>www\<close>; the turns of the polling loop; the answers to
  a call of \<open>run_command\<close>, given what \<open>fork\<close> and \<open>setuid\<close> return, the turns of
  the polling loop and the reads of the pipe.
\<close>

definition ex_accounts :: "string \<Rightarrow> passwd option" where
  "ex_accounts u = (if u = ''www'' then Some \<lparr>pw_uid = 33, pw_gid = 33\<rparr> else None)"

definition running :: "32 word \<Rightarrow> poll" where
  "running d = \<lparr>wp_ret = 0, wp_status = 0, diff_ms = d\<rparr>"

definition exited :: "int \<Rightarrow> poll" where
  "exited r = \<lparr>wp_ret = r, wp_status = 139, diff_ms = 0\<rparr>"

definition ex_cmd_env :: "int \<Rightarrow> int \<Rightarrow> poll list \<Rightarrow> int list \<Rightarrow> cmd_env" where
  "ex_cmd_env pid su polls reads =
     \<lparr>c_pipe_ret = 0, c_pipe_rd = 3, c_pipe_wr = 4, c_fork_ret = pid,
      c_getpwnam = ex_accounts, c_setuid_ret = su, c_uid = 0, c_execl_ok = True,
      c_polls = polls, c_reads = reads\<rparr>"

definition ex_cmd :: "string option \<Rightarrow> action_cmd" where
  "ex_cmd u = \<lparr>command = ''id'', user = u\<rparr>"

text \<open>
  A log target with a header and no owner, and the file system after one and after two
  calls of \<open>log_to_file\<close> on it, starting with no file.
\<close>

definition ex_log_plain :: action_log where
  "ex_log_plain = \<lparr>path = ''/var/log/srd.log'', header = Some ''time,event'', username = None\<rparr>"

definition ex_fs1 :: filesystem where
  "ex_fs1 = fst (snd (log_to_file ex_log_env Map.empty ex_log_plain ''up''))"

definition ex_fs2 :: filesystem where
  "ex_fs2 = fst (snd (log_to_file ex_log_env ex_fs1 ex_log_plain ''down''))"

text \<open>
  An endpoint without a connection and with five seconds of budget, and a system where
  the connection takes seven seconds to come about (\<open>time\<close> gives 100 before
  \<open>connect\<close> and 107 after the wait).
\<close>

definition ex_unconnected :: action_influx where
  "ex_unconnected = \<lparr>host = ''db'', port = 8086, endpoint = ''/write'',
     authorization = ''Token t'', timeout = 5,
     conn_socket = 0, conn_epoll_write_fd = 0, conn_epoll_read_fd = 0\<rparr>"

definition ex_slow_connect :: "wstep list \<Rightarrow> wstep list \<Rightarrow> rstep list \<Rightarrow> influx_env" where
  "ex_slow_connect hs bs rs =
     \<lparr>i_to_sockaddr = 1, i_resolve_hostname = 1, i_socket = 5, i_epoll_w = 6, i_epoll_r = 7,
      i_connect_ret = - 1, i_connect_errno = EINPROGRESS,
      i_conn_t1 = 100, i_conn_ready = 1, i_conn_t2 = 107,
      i_header = hs, i_body = bs, i_read = rs\<rparr>"

section \<open>Properties\<close>

subsection \<open>The request that influx builds\<close>

lemma influx_body_eq: "influx_body actual_line = actual_line"
  by (simp add: influx_body_def snprintf_def)

lemma ex_header_length: "length (influx_header ex_endpoint ''m'') = 82"
  by (simp add: influx_header_def snprintf_def ex_endpoint_def dec.simps)

text \<open>
  C2. The claim: the body of the request is the line followed by a newline, and
  Content-Length is the length of the line plus one. The buffer \<open>body\<close> has
  \<open>strlen(actual_line) + 1\<close> bytes and \<open>snprintf\<close> keeps one of them for the NUL, so the
  newline of the format \<open>"%s\n"\<close> never fits: for the line \<open>cpu load=1\<close> of ten
  bytes the body is these ten bytes, with no newline, and the header announces 10.
\<close>

theorem influx_body_without_newline:
  "influx_body ''cpu load=1'' = ''cpu load=1'' \<and>
   influx_header ex_endpoint (influx_body ''cpu load=1'') =
     ''POST /write HTTP/1.1'' @ [CR, LF] @ ''Host: db:8086'' @ [CR, LF] @
     ''Content-Length: 10'' @ [CR, LF] @ ''Authorization: Token t'' @ [CR, LF, CR, LF]"
  by (simp add: influx_body_eq influx_header_def snprintf_def ex_endpoint_def dec.simps)

subsection \<open>Failure returns of influx and the connection\<close>

text \<open>
  What holds of the failure returns: each of them leaves the endpoint without a
  connection, but for the two returns that follow the exhaustion of the budget in a
  sending loop.
\<close>

lemma send_loop_Ret:
  "send_loop a buf tleft ss tr = Ret r a' tr' \<Longrightarrow>
   r = 0 \<and> (conn_socket a' \<le> 0 \<or> (a' = a \<and> (\<exists>tr0. tr' = tr0 @ [EvLogError ''Timeout''])))"
proof (induction ss arbitrary: tleft tr)
  case Nil
  then show ?case by simp
next
  case (Cons s ss)
  show ?case
  proof (cases "w_ret s = - 1 \<and> (w_errno s = EWOULDBLOCK \<or> w_errno s = EAGAIN) \<and> 0 < w_ready s
                \<and> 0 < tleft - real_of_int (w_t2 s - w_t1 s)")
    case True
    with Cons.prems obtain tleft2 tr2 where "send_loop a buf tleft2 ss tr2 = Ret r a' tr'"
      by (auto simp: Let_def)
    then show ?thesis by (rule Cons.IH)
  next
    case False
    with Cons.prems show ?thesis
      by (auto simp: Let_def CLOSE_def split: if_splits)
  qed
qed

lemma recv_loop_Ret:
  "recv_loop a tleft ss tr = Ret r a' tr' \<Longrightarrow> r = 0 \<and> conn_socket a' \<le> 0"
proof (induction ss arbitrary: tr)
  case Nil
  then show ?case by simp
next
  case (Cons s ss)
  show ?case
  proof (cases "r_ret s = - 1 \<and> (r_errno s = EWOULDBLOCK \<or> r_errno s = EAGAIN) \<and> 0 < r_ready s")
    case True
    with Cons.prems obtain tr2 where "recv_loop a tleft ss tr2 = Ret r a' tr'"
      by (auto simp: Let_def)
    then show ?thesis by (rule Cons.IH)
  next
    case False
    with Cons.prems show ?thesis
      by (auto simp: Let_def CLOSE_def split: if_splits)
  qed
qed

lemma influx_connect_Ret:
  "influx_connect env a = Ret r a' tr \<Longrightarrow> r = 0 \<and> conn_socket a' \<le> 0"
  by (auto simp: influx_connect_def Let_def CLOSE_def split: if_splits)

lemma influx_failure_closes_unless_budget:
  assumes "influx env a line = (Returned 0, a', tr)"
  shows "conn_socket a' \<le> 0 \<or> (\<exists>tr0. tr = tr0 @ [EvLogError ''Timeout''])"
proof (cases "influx_connect env a")
  case (Ret r a1 tr1)
  with assms influx_connect_Ret [OF Ret] show ?thesis by (simp add: influx_def)
next
  case (Wait tr1)
  with assms show ?thesis by (simp add: influx_def)
next
  case (Next x)
  obtain a1 tleft0 tr0 where x: "x = (a1, tleft0, tr0)" by (cases x) auto
  let ?body = "influx_body line"
  let ?header = "influx_header a1 ?body"
  show ?thesis
  proof (cases "send_loop a1 ?header tleft0 (i_header env) tr0")
    case (Ret r a2 tr2)
    with assms Next x send_loop_Ret [OF Ret] show ?thesis
      by (auto simp: influx_def Let_def)
  next
    case (Wait tr2)
    with assms Next x show ?thesis by (simp add: influx_def Let_def)
  next
    case h: (Next y)
    obtain tleft1 tr1 where y: "y = (tleft1, tr1)" by (cases y) auto
    show ?thesis
    proof (cases "send_loop a1 ?body tleft1 (i_body env) tr1")
      case (Ret r a2 tr2)
      with assms Next x h y send_loop_Ret [OF Ret] show ?thesis
        by (auto simp: influx_def Let_def)
    next
      case (Wait tr2)
      with assms Next x h y show ?thesis by (simp add: influx_def Let_def)
    next
      case b: (Next z)
      obtain tleft2 tr2 where z: "z = (tleft2, tr2)" by (cases z) auto
      show ?thesis
      proof (cases "recv_loop a1 tleft2 (i_read env) tr2")
        case (Ret r a2 tr3)
        with assms Next x h y b z recv_loop_Ret [OF Ret] show ?thesis
          by (auto simp: influx_def Let_def)
      next
        case (Wait tr3)
        with assms Next x h y b z show ?thesis by (simp add: influx_def Let_def)
      next
        case r: (Next w)
        obtain answer tr3 where w: "w = (answer, tr3)" by (cases w) auto
        with assms Next x h y b z r show ?thesis
          by (auto simp: influx_def Let_def CLOSE_def split: if_splits)
      qed
    qed
  qed
qed

text \<open>
  C1. The claim: every return of failure closes the socket and clears the connection of
  the endpoint, so that the next call connects anew. On a connected endpoint with one
  second of budget, the header write would block, the watcher reports the socket ready,
  and one second has gone by (\<open>time\<close> gave 100 before the wait and 101 after it): the
  budget is used up and \<open>influx\<close> returns 0 at line 391, with the endpoint as it was
  (socket 5) and no \<open>close\<close> among its calls. The next call on this endpoint writes on
  socket 5 at once; it makes no socket and does not connect.
\<close>

theorem influx_timeout_keeps_connection:
  "influx (ex_env [would_block 100 1 101] [] []) ex_endpoint ''m'' =
     (Returned 0, ex_endpoint,
      [EvWrite 5 (influx_header ex_endpoint (influx_body ''m'')), EvClock,
       EvEpollWait 6 1000, EvClock, EvLogError ''Timeout'']) \<and>
   influx (ex_env [wrote 82] [wrote 1] [got (''HTTP/1.1 204 No Content'' @ [CR, LF, CR, LF])])
          ex_endpoint ''m'' =
     (Returned 1, ex_endpoint,
      [EvWrite 5 (influx_header ex_endpoint (influx_body ''m'')), EvWrite 5 (influx_body ''m''),
       EvRead 5])"
  using ex_header_length
  by (simp add: influx_def influx_connect_def ex_endpoint_def would_block_def wrote_def got_def
      ex_env_def trunc_ms_def influx_body_eq Let_def)

subsection \<open>The budget of influx\<close>

text \<open>
  What holds of the budget: with a clock that does not go back, a sending loop that
  comes to its end leaves no more budget than it found, and a budget it has lowered is
  still above zero. The wait for the connection lowers the budget and does not test
  it: on an endpoint with five seconds of budget whose connection takes seven, the
  budget is \<open>- 2\<close> when the header is sent, and the call succeeds.
\<close>

lemma send_loop_budget:
  "send_loop a buf tleft ss tr = Next (tleft', tr') \<Longrightarrow> \<forall>s\<in>set ss. w_t1 s \<le> w_t2 s \<Longrightarrow>
   tleft' \<le> tleft \<and> (tleft' = tleft \<or> 0 < tleft')"
proof (induction ss arbitrary: tleft tr)
  case Nil
  then show ?case by simp
next
  case (Cons s ss)
  show ?case
  proof (cases "w_ret s = - 1 \<and> (w_errno s = EWOULDBLOCK \<or> w_errno s = EAGAIN)")
    case True
    let ?tleft2 = "tleft - real_of_int (w_t2 s - w_t1 s)"
    from True Cons.prems(1) have pos: "0 < ?tleft2"
      by (auto simp: Let_def CLOSE_def split: if_splits)
    from True Cons.prems(1) obtain tr2 where "send_loop a buf ?tleft2 ss tr2 = Next (tleft', tr')"
      by (auto simp: Let_def CLOSE_def split: if_splits)
    from Cons.IH [OF this] Cons.prems(2) have "tleft' \<le> ?tleft2 \<and> (tleft' = ?tleft2 \<or> 0 < tleft')" by simp
    moreover from Cons.prems(2) have "?tleft2 \<le> tleft" by simp
    ultimately show ?thesis using pos by auto
  next
    case False
    with Cons.prems(1) show ?thesis
      by (auto simp: Let_def CLOSE_def split: if_splits)
  qed
qed

lemma influx_connect_wait_not_checked:
  "influx (ex_slow_connect [wrote 82] [wrote 1]
             [got (''HTTP/1.1 204 No Content'' @ [CR, LF, CR, LF])]) ex_unconnected ''m'' =
     (Returned 1,
      ex_unconnected\<lparr>conn_socket := 5, conn_epoll_write_fd := 6, conn_epoll_read_fd := 7\<rparr>,
      [EvSocket, EvEpollCreate, EvEpollCreate, EvEpollCtl 6 5, EvEpollCtl 7 5, EvClock,
       EvConnect 5, EvEpollWait 6 10000, EvClock,
       EvWrite 5 (influx_header ex_endpoint (influx_body ''m'')), EvWrite 5 (influx_body ''m''),
       EvRead 5]) \<and>
   influx_connect (ex_slow_connect [] [] []) ex_unconnected =
     Next (ex_unconnected\<lparr>conn_socket := 5, conn_epoll_write_fd := 6, conn_epoll_read_fd := 7\<rparr>,
           - 2,
           [EvSocket, EvEpollCreate, EvEpollCreate, EvEpollCtl 6 5, EvEpollCtl 7 5, EvClock,
            EvConnect 5, EvEpollWait 6 10000, EvClock])"
proof -
  have h: "influx_header
       (ex_unconnected\<lparr>conn_socket := 5, conn_epoll_write_fd := 6, conn_epoll_read_fd := 7\<rparr>) b =
     influx_header ex_endpoint b" for b
    by (simp add: influx_header_def ex_unconnected_def ex_endpoint_def)
  have c: "influx_connect (ex_slow_connect hs bs rs) ex_unconnected =
     Next (ex_unconnected\<lparr>conn_socket := 5, conn_epoll_write_fd := 6, conn_epoll_read_fd := 7\<rparr>,
           - 2,
           [EvSocket, EvEpollCreate, EvEpollCreate, EvEpollCtl 6 5, EvEpollCtl 7 5, EvClock,
            EvConnect 5, EvEpollWait 6 10000, EvClock])" for hs bs rs
    by (simp add: influx_connect_def ex_slow_connect_def ex_unconnected_def Let_def)
  have l: "length (influx_header ex_endpoint ''m'') = 82" by (rule ex_header_length)
  show ?thesis
    by (simp add: influx_def c h l influx_body_eq Let_def)
      (simp add: ex_slow_connect_def wrote_def got_def ex_unconnected_def l)
qed

text \<open>
  C3. The claim: every wait, in every phase, takes the time it lasted off the budget,
  and the call fails once the budget is used up. In the receiving loop nothing is
  taken off: with one second of budget, header and body written at once, the first two
  reads find no data, five seconds lie between the two waits (\<open>time\<close> gave 100, then
  105), both waits are given the full 1000 milliseconds, and the call returns success.
\<close>

theorem influx_read_wait_not_deducted:
  "influx (ex_env [wrote 82] [wrote 1]
             [no_data 100 1, no_data 105 1, got (''HTTP/1.1 204 No Content'' @ [CR, LF, CR, LF])])
          ex_endpoint ''m'' =
     (Returned 1, ex_endpoint,
      [EvWrite 5 (influx_header ex_endpoint (influx_body ''m'')), EvWrite 5 (influx_body ''m''),
       EvRead 5, EvClock, EvEpollWait 7 1000,
       EvRead 5, EvClock, EvEpollWait 7 1000,
       EvRead 5])"
  using ex_header_length
  by (simp add: influx_def influx_connect_def ex_endpoint_def wrote_def no_data_def got_def
      ex_env_def trunc_ms_def influx_body_eq Let_def)

subsection \<open>The owner of a new log file\<close>

text \<open>
  What holds of the ownership step: when the owner resolves, the value returned is the
  result of closing the file, whatever \<open>chown\<close> returns.
\<close>

lemma log_to_file_chown_best_effort:
  assumes "l_fopen_ok env"
    and "\<And>u. fs (path al) = None \<Longrightarrow> username al = Some u \<Longrightarrow> l_getpwnam env u \<noteq> None"
  shows "fst (log_to_file env fs al line) = Returned (if l_fclose_ret env = 0 then 1 else 0)"
proof (cases "fs (path al) = None \<and> username al \<noteq> None")
  case True
  then obtain u where u: "username al = Some u" by auto
  with True assms(2) obtain pw where "l_getpwnam env u = Some pw" by auto
  with True u assms(1) show ?thesis
    by (simp add: log_to_file_def Let_def)
next
  case False
  with assms(1) show ?thesis
    by (auto simp: log_to_file_def Let_def)
qed

text \<open>
  C6. The claim: when the owner of a new log file does not resolve, this is logged and
  \<open>log_to_file\<close> still returns the result of the write. The result of \<open>getpwnam\<close>
  is used at line 253 without a test: for the owner \<open>ghost\<close>, unknown to the system,
  the line is written, the file closed, and the process ends at the dereference; nothing
  is logged and nothing is returned.
\<close>

theorem log_to_file_unknown_owner_crashes:
  "log_to_file ex_log_env Map.empty ex_log ''up'' =
     (Crashed,
      [''/var/log/srd.log'' \<mapsto> \<lparr>content = ''time,event'' @ [LF] @ ''up'' @ [LF], f_uid = 0, f_gid = 0\<rparr>],
      [EvAccess ''/var/log/srd.log'', EvFopen ''/var/log/srd.log'',
       EvFputs ''time,event'', EvFputs [LF], EvFputs ''up'', EvFputs [LF], EvFclose,
       EvGetpwnam ''ghost''])"
  by (simp add: log_to_file_def ex_log_def ex_log_env_def fopen_append_def flush_append_def Let_def)

subsection \<open>The polling loop of run_command\<close>

lemmas ex_cmd_defs = ex_cmd_env_def ex_cmd_def running_def exited_def ex_accounts_def

lemma poll_loop_skip:
  "\<forall>q\<in>set pre. wp_ret q = 0 \<and> diff_ms q < t \<Longrightarrow>
   poll_loop pid t (pre @ rest) tr =
   poll_loop pid t rest
     (tr @ concat (map (\<lambda>q. [EvWaitpid pid WNOHANG, EvUsleep 100000, EvClock]) pre))"
  by (induction pre arbitrary: tr) (auto simp: Let_def not_le)

lemma poll_loop_reaped_decomp:
  "poll_loop pid t ps tr = (Reaped r, tr') \<Longrightarrow>
   \<exists>pre p post. ps = pre @ p # post \<and>
     (\<forall>q\<in>set pre. wp_ret q = 0 \<and> diff_ms q < t) \<and> wp_ret p = r \<and> r \<noteq> 0"
proof (induction ps arbitrary: tr)
  case Nil
  then show ?case by simp
next
  case (Cons p0 ps)
  show ?case
  proof (cases "wp_ret p0 = 0")
    case False
    with Cons.prems have "wp_ret p0 = r" by (simp add: Let_def)
    with False have "p0 # ps = [] @ p0 # ps \<and>
        (\<forall>q\<in>set []. wp_ret q = 0 \<and> diff_ms q < t) \<and> wp_ret p0 = r \<and> r \<noteq> 0"
      by simp
    then show ?thesis by blast
  next
    case True
    with Cons.prems have lt: "diff_ms p0 < t"
      by (auto simp: Let_def split: if_splits)
    with True Cons.prems obtain tr2 where "poll_loop pid t ps tr2 = (Reaped r, tr')"
      by (auto simp: Let_def split: if_splits)
    from Cons.IH [OF this] obtain pre p post where
      d: "ps = pre @ p # post" "\<forall>q\<in>set pre. wp_ret q = 0 \<and> diff_ms q < t"
         "wp_ret p = r" "r \<noteq> 0"
      by blast
    with True lt have "p0 # ps = (p0 # pre) @ p # post \<and>
        (\<forall>q\<in>set (p0 # pre). wp_ret q = 0 \<and> diff_ms q < t) \<and> wp_ret p = r \<and> r \<noteq> 0"
      by simp
    then show ?thesis by blast
  qed
qed

lemma poll_loop_timed_out:
  "wp_ret p = 0 \<Longrightarrow> t \<le> diff_ms p \<Longrightarrow>
   poll_loop pid t (p # post) tr =
     (TimedOut,
      (tr @ [EvWaitpid pid WNOHANG, EvUsleep 100000, EvClock, EvLogError ''Command took too long'']) @
      [EvKillTerm pid, EvWaitpid pid WUNTRACED])"
  by (simp add: Let_def)


lemma drain_Some_iff: "(\<exists>tr'. drain fd rs tr = Some tr') = (\<exists>r\<in>set rs. r \<le> 0)"
  by (induction rs arbitrary: tr) auto

lemma run_parent_reaped:
  assumes "c_polls env = pre @ p # post"
    and "\<forall>q\<in>set pre. wp_ret q = 0 \<and> diff_ms q < timeout_ms"
    and "wp_ret p = pid" and "pid \<noteq> 0" and "\<exists>r\<in>set (c_reads env). r \<le> 0"
  shows "fst (run_parent env pid timeout_ms tr) = Returned 1"
proof -
  from assms(5) have "\<exists>tr2. drain (c_pipe_rd env) (c_reads env) tr' = Some tr2" for tr'
    by (simp only: drain_Some_iff)
  then show ?thesis
    using assms(1-4) by (auto simp: run_parent_def poll_loop_skip Let_def split: option.splits)
qed





subsection \<open>The child of run_command\<close>

text \<open>
  C9. In the child, when the user of the command resolves, the value of \<open>setuid\<close> is
  not looked at: when \<open>setuid\<close> fails, \<open>execl\<close> is the next call, and the shell runs
  the command under the uid the process had before, the one of the daemon.
\<close>

theorem run_command_setuid_unchecked:
  assumes "c_pipe_ret env = 0" and "c_fork_ret env = 0"
    and "user cmd = Some u" and "c_getpwnam env u = Some a" and "c_setuid_ret env \<noteq> 0"
  shows "run_command env cmd timeout_ms actual_command =
     (let tr = [EvPipe, EvFork, EvDup2, EvGetpwnam u, EvSetuid (pw_uid a),
                EvExecl ''/bin/sh'' [''sh'', ''-c'', actual_command]]
      in if c_execl_ok env then (Execs actual_command (c_uid env), tr)
         else (Returned 0, tr @ [EvLogError ''execl failed.'']))"
  using assms by (simp add: run_command_def run_child_def Let_def)

theorem run_command_setuid_unchecked_witness:
  "run_command (ex_cmd_env 0 (- 1) [] []) (ex_cmd (Some ''www'')) 500 ''id'' =
     (Execs ''id'' 0,
      [EvPipe, EvFork, EvDup2, EvGetpwnam ''www'', EvSetuid 33,
       EvExecl ''/bin/sh'' [''sh'', ''-c'', ''id'']])"
proof -
  let ?e = "ex_cmd_env 0 (- 1) [] []"
  have "c_pipe_ret ?e = 0" "c_fork_ret ?e = 0" "user (ex_cmd (Some ''www'')) = Some ''www''"
    "c_getpwnam ?e ''www'' = Some \<lparr>pw_uid = 33, pw_gid = 33\<rparr>" "c_setuid_ret ?e \<noteq> 0"
    by (simp_all add: ex_cmd_defs)
  from run_command_setuid_unchecked [OF this, of 500 "''id''"]
  show ?thesis by (simp add: ex_cmd_defs)
qed

text \<open>
  C4, as the code has it. The parent passes NULL for the status to \<open>waitpid\<close> and
  never learns how the child ended. For a command whose user does not resolve, what
  \<open>run_command\<close> returns in the parent is what it returns for any other command: it is 1
  whenever a poll returns the pid of the child, every poll before it found the child
  running with less than \<open>timeout_ms\<close> elapsed, and the read loop on the pipe comes to
  its end.
\<close>

theorem run_command_parent_ignores_user:
  "c_pipe_ret env = 0 \<and> 0 < c_fork_ret env \<and> user cmd = Some u \<and> c_getpwnam env u = None \<longrightarrow>
     run_command env cmd timeout_ms actual_command =
       run_command env cmd' timeout_ms actual_command \<and>
     (c_polls env = pre @ p # post \<and>
      (\<forall>q\<in>set pre. wp_ret q = 0 \<and> diff_ms q < timeout_ms) \<and> wp_ret p = c_fork_ret env \<and>
      (\<exists>r\<in>set (c_reads env). r \<le> 0) \<longrightarrow>
        fst (run_command env cmd timeout_ms actual_command) = Returned 1)"
proof (intro impI conjI)
  assume a: "c_pipe_ret env = 0 \<and> 0 < c_fork_ret env \<and> user cmd = Some u \<and> c_getpwnam env u = None"
  then show "run_command env cmd timeout_ms actual_command =
       run_command env cmd' timeout_ms actual_command"
    by (simp add: run_command_def)
  assume b: "c_polls env = pre @ p # post \<and>
      (\<forall>q\<in>set pre. wp_ret q = 0 \<and> diff_ms q < timeout_ms) \<and> wp_ret p = c_fork_ret env \<and>
      (\<exists>r\<in>set (c_reads env). r \<le> 0)"
  with a have "fst (run_parent env (c_fork_ret env) timeout_ms [EvPipe, EvFork]) = Returned 1"
    by (intro run_parent_reaped [where pre = pre and p = p and post = post]) auto
  with a show "fst (run_command env cmd timeout_ms actual_command) = Returned 1"
    by (simp add: run_command_def)
qed

theorem run_command_parent_ignores_user_witness:
  "run_command (ex_cmd_env 4242 0 [running 100, exited 4242] [0]) (ex_cmd (Some ''ghost'')) 500 ''id'' =
     run_command (ex_cmd_env 4242 0 [running 100, exited 4242] [0]) (ex_cmd (Some ''www'')) 500 ''id'' \<and>
   fst (run_command (ex_cmd_env 4242 0 [running 100, exited 4242] [0]) (ex_cmd (Some ''ghost'')) 500 ''id'') =
     Returned 1"
proof -
  let ?p = "ex_cmd_env 4242 0 [running 100, exited 4242] [0]"
  have a: "c_pipe_ret ?p = 0 \<and> 0 < c_fork_ret ?p \<and> user (ex_cmd (Some ''ghost'')) = Some ''ghost'' \<and>
     c_getpwnam ?p ''ghost'' = None"
    by (simp add: ex_cmd_defs)
  have b: "c_polls ?p = [running 100] @ exited 4242 # [] \<and>
    (\<forall>q\<in>set [running 100]. wp_ret q = 0 \<and> diff_ms q < 500) \<and> wp_ret (exited 4242) = c_fork_ret ?p \<and>
    (\<exists>r\<in>set (c_reads ?p). r \<le> 0)"
    by (simp add: ex_cmd_defs)
  from a b run_command_parent_ignores_user [where env = ?p and cmd = "ex_cmd (Some ''ghost'')"
      and cmd' = "ex_cmd (Some ''www'')" and u = "''ghost''" and pre = "[running 100]"
      and p = "exited 4242" and post = "[]" and timeout_ms = 500 and actual_command = "''id''"]
  show ?thesis by blast
qed

text \<open>
  C4, as stated, does not hold: the user \<open>ghost\<close> is unknown, the second poll returns
  the pid of the child, and the parent returns 1.
\<close>

theorem run_command_unknown_user_succeeds:
  "user (ex_cmd (Some ''ghost'')) = Some ''ghost'' \<and>
   c_getpwnam (ex_cmd_env 4242 0 [running 100, exited 4242] [0]) ''ghost'' = None \<and>
   run_command (ex_cmd_env 4242 0 [running 100, exited 4242] [0]) (ex_cmd (Some ''ghost'')) 500 ''id'' =
     (Returned 1,
      [EvPipe, EvFork, EvClose 4, EvClock, EvWaitpid 4242 WNOHANG, EvUsleep 100000, EvClock,
       EvWaitpid 4242 WNOHANG, EvRead 3, EvClose 3])"
  by (simp add: run_command_def run_parent_def ex_cmd_defs Let_def)

subsection \<open>The order of polling and draining\<close>

lemma drains_while_polling_append:
  "drains_while_polling (xs @ ys) =
     (drains_while_polling xs \<or> drains_while_polling ys \<or> (list_ex is_pipe_read xs \<and> list_ex is_poll ys))"
  by (induction xs) auto

lemma poll_loop_no_read:
  "poll_loop pid t ps tr = (e, tr') \<Longrightarrow> \<exists>evs. tr' = tr @ evs \<and> \<not> list_ex is_pipe_read evs \<and> \<not> drains_while_polling evs"
proof (induction ps arbitrary: tr)
  case Nil
  then show ?case by simp
next
  case (Cons p ps)
  show ?case
  proof (cases "wp_ret p = 0 \<and> \<not> t \<le> diff_ms p")
    case True
    with Cons.prems have "poll_loop pid t ps (tr @ [EvWaitpid pid WNOHANG, EvUsleep 100000, EvClock]) = (e, tr')"
      by (simp add: Let_def)
    from Cons.IH [OF this] obtain evs where
      "tr' = (tr @ [EvWaitpid pid WNOHANG, EvUsleep 100000, EvClock]) @ evs"
      "\<not> list_ex is_pipe_read evs" "\<not> drains_while_polling evs" by blast
    then have "tr' = tr @ ([EvWaitpid pid WNOHANG, EvUsleep 100000, EvClock] @ evs) \<and>
       \<not> list_ex is_pipe_read ([EvWaitpid pid WNOHANG, EvUsleep 100000, EvClock] @ evs) \<and>
       \<not> drains_while_polling ([EvWaitpid pid WNOHANG, EvUsleep 100000, EvClock] @ evs)"
      by simp
    then show ?thesis by blast
  next
    case False
    with Cons.prems show ?thesis
      by (auto simp: Let_def split: if_splits)
  qed
qed

lemma drain_no_poll:
  "drain fd rs tr = Some tr' \<Longrightarrow> \<exists>evs. tr' = tr @ evs \<and> \<not> list_ex is_poll evs \<and> \<not> drains_while_polling evs"
proof (induction rs arbitrary: tr)
  case Nil
  then show ?case by simp
next
  case (Cons r rs)
  show ?case
  proof (cases "r > 0")
    case True
    with Cons.prems have "drain fd rs (tr @ [EvRead fd]) = Some tr'" by simp
    from Cons.IH [OF this] obtain evs where
      "tr' = (tr @ [EvRead fd]) @ evs" "\<not> list_ex is_poll evs" "\<not> drains_while_polling evs" by blast
    then have "tr' = tr @ ([EvRead fd] @ evs) \<and> \<not> list_ex is_poll ([EvRead fd] @ evs) \<and>
       \<not> drains_while_polling ([EvRead fd] @ evs)" by simp
    then show ?thesis by blast
  next
    case False
    with Cons.prems have "tr' = tr @ [EvRead fd]" by simp
    then show ?thesis by simp
  qed
qed

lemma run_parent_no_drain_while_polling:
  assumes "\<not> list_ex is_pipe_read tr" "\<not> drains_while_polling tr"
  shows "\<not> drains_while_polling (snd (run_parent env pid t tr))"
proof -
  let ?tr0 = "tr @ [EvClose (c_pipe_wr env), EvClock]"
  obtain e tr1 where pl: "poll_loop pid t (c_polls env) ?tr0 = (e, tr1)"
    by (cases "poll_loop pid t (c_polls env) ?tr0") auto
  from poll_loop_no_read [OF pl] obtain evs where
    evs: "tr1 = ?tr0 @ evs" "\<not> list_ex is_pipe_read evs" "\<not> drains_while_polling evs" by blast
  with assms have t1: "\<not> drains_while_polling tr1" "\<not> list_ex is_pipe_read tr1"
    by (simp_all add: drains_while_polling_append)
  show ?thesis
  proof (cases e)
    case (Reaped res)
    show ?thesis
    proof (cases "drain (c_pipe_rd env) (c_reads env) tr1")
      case None
      with pl Reaped t1 show ?thesis by (simp add: run_parent_def)
    next
      case (Some tr2)
      from drain_no_poll [OF Some] obtain evs2 where
        "tr2 = tr1 @ evs2" "\<not> list_ex is_poll evs2" "\<not> drains_while_polling evs2" by blast
      with t1 have "\<not> drains_while_polling (tr2 @ [EvClose (c_pipe_rd env)])"
        by (simp add: drains_while_polling_append)
      with pl Reaped Some show ?thesis by (simp add: run_parent_def)
    qed
  qed (use pl t1 in \<open>simp_all add: run_parent_def\<close>)
qed

lemma run_parent_reads:
  assumes "\<not> list_ex is_pipe_read tr"
    and "list_ex is_pipe_read (snd (run_parent env pid t tr))"
  shows "\<exists>r tr1. poll_loop pid t (c_polls env) (tr @ [EvClose (c_pipe_wr env), EvClock]) = (Reaped r, tr1)"
proof -
  let ?tr0 = "tr @ [EvClose (c_pipe_wr env), EvClock]"
  obtain e tr1 where pl: "poll_loop pid t (c_polls env) ?tr0 = (e, tr1)"
    by (cases "poll_loop pid t (c_polls env) ?tr0") auto
  from poll_loop_no_read [OF pl] obtain evs where
    "tr1 = ?tr0 @ evs" "\<not> list_ex is_pipe_read evs" by blast
  with assms(1) have nr: "\<not> list_ex is_pipe_read tr1" by simp
  show ?thesis
  proof (cases e)
    case (Reaped r)
    with pl show ?thesis by blast
  qed (use pl nr assms(2) in \<open>simp_all add: run_parent_def\<close>)
qed

text \<open>
  C8, as the code has it. The pipe is read only after the polling loop has ended with a
  \<open>waitpid\<close> that returned a value other than 0: in no run of \<open>run_command\<close> is a read
  of the pipe followed by a poll; a run that reads the pipe has a poll that returned
  a value other than 0, before which every poll found the child running with less than
  \<open>timeout_ms\<close> elapsed; and a run that ends by the timeout never reads the pipe.
\<close>

theorem run_command_reads_only_after_reaping:
  "\<not> drains_while_polling (snd (run_command env cmd timeout_ms actual_command)) \<and>
   (list_ex is_pipe_read (snd (run_command env cmd timeout_ms actual_command)) \<longrightarrow>
      (\<exists>pre p post. c_polls env = pre @ p # post \<and>
         (\<forall>q\<in>set pre. wp_ret q = 0 \<and> diff_ms q < timeout_ms) \<and> wp_ret p \<noteq> 0)) \<and>
   (c_polls env = pre @ p # post \<and>
    (\<forall>q\<in>set pre. wp_ret q = 0 \<and> diff_ms q < timeout_ms) \<and> wp_ret p = 0 \<and>
    timeout_ms \<le> diff_ms p \<longrightarrow>
      \<not> list_ex is_pipe_read (snd (run_command env cmd timeout_ms actual_command)))"
proof -
  let ?run = "run_command env cmd timeout_ms actual_command"
  have order: "\<not> drains_while_polling (snd ?run)"
    using run_parent_no_drain_while_polling [of "[EvPipe, EvFork]" env "c_fork_ret env" timeout_ms]
    by (auto simp: run_command_def run_child_def Let_def split: option.splits)
  have reaped: "\<exists>r tr1. poll_loop (c_fork_ret env) timeout_ms (c_polls env)
        ([EvPipe, EvFork] @ [EvClose (c_pipe_wr env), EvClock]) = (Reaped r, tr1)"
    if "list_ex is_pipe_read (snd ?run)"
  proof -
    from that have "list_ex is_pipe_read
        (snd (run_parent env (c_fork_ret env) timeout_ms [EvPipe, EvFork]))"
      by (auto simp: run_command_def run_child_def Let_def split: if_splits option.splits)
    then show ?thesis by (intro run_parent_reads) simp_all
  qed
  have after: "\<exists>pre p post. c_polls env = pre @ p # post \<and>
         (\<forall>q\<in>set pre. wp_ret q = 0 \<and> diff_ms q < timeout_ms) \<and> wp_ret p \<noteq> 0"
    if "list_ex is_pipe_read (snd ?run)"
  proof -
    from reaped [OF that] obtain r tr1 where
      "poll_loop (c_fork_ret env) timeout_ms (c_polls env)
        ([EvPipe, EvFork] @ [EvClose (c_pipe_wr env), EvClock]) = (Reaped r, tr1)" by blast
    from poll_loop_reaped_decomp [OF this] show ?thesis by blast
  qed
  have timeout: "\<not> list_ex is_pipe_read (snd ?run)"
    if "c_polls env = pre @ p # post \<and>
        (\<forall>q\<in>set pre. wp_ret q = 0 \<and> diff_ms q < timeout_ms) \<and> wp_ret p = 0 \<and>
        timeout_ms \<le> diff_ms p"
  proof
    assume "list_ex is_pipe_read (snd ?run)"
    from reaped [OF this] obtain r tr1 where
      "poll_loop (c_fork_ret env) timeout_ms (c_polls env)
        ([EvPipe, EvFork] @ [EvClose (c_pipe_wr env), EvClock]) = (Reaped r, tr1)" by blast
    with that show False
      by (simp add: poll_loop_skip poll_loop_timed_out del: poll_loop.simps)
  qed
  from order after timeout show ?thesis by blast
qed

theorem run_command_reads_only_after_reaping_witness:
  "(\<exists>pre p post. [running 100, running 200, exited 4242] = pre @ p # post \<and>
      (\<forall>q\<in>set pre. wp_ret q = 0 \<and> diff_ms q < 500) \<and> wp_ret p \<noteq> 0) \<and>
   \<not> list_ex is_pipe_read
       (snd (run_command (ex_cmd_env 4242 0 [running 100, running 600] [12, 0]) (ex_cmd None) 500 ''id''))"
proof -
  let ?e1 = "ex_cmd_env 4242 0 [running 100, running 200, exited 4242] [12, 0]"
  let ?e2 = "ex_cmd_env 4242 0 [running 100, running 600] [12, 0]"
  have r: "list_ex is_pipe_read (snd (run_command ?e1 (ex_cmd None) 500 ''id''))"
    by (simp add: run_command_def run_parent_def ex_cmd_defs Let_def)
  have d: "c_polls ?e2 = [running 100] @ running 600 # [] \<and>
     (\<forall>q\<in>set [running 100]. wp_ret q = 0 \<and> diff_ms q < 500) \<and> wp_ret (running 600) = 0 \<and>
     (500 :: 32 word) \<le> diff_ms (running 600)"
    by (simp add: ex_cmd_defs)
  from r run_command_reads_only_after_reaping [where env = ?e1 and cmd = "ex_cmd None"
      and timeout_ms = 500 and actual_command = "''id''"]
  have "\<exists>pre p post. c_polls ?e1 = pre @ p # post \<and>
      (\<forall>q\<in>set pre. wp_ret q = 0 \<and> diff_ms q < 500) \<and> wp_ret p \<noteq> 0" by blast
  then have "\<exists>pre p post. [running 100, running 200, exited 4242] = pre @ p # post \<and>
      (\<forall>q\<in>set pre. wp_ret q = 0 \<and> diff_ms q < 500) \<and> wp_ret p \<noteq> 0"
    by (simp add: ex_cmd_env_def)
  moreover
  from d run_command_reads_only_after_reaping [where env = ?e2 and cmd = "ex_cmd None"
      and timeout_ms = 500 and actual_command = "''id''" and pre = "[running 100]"
      and p = "running 600" and post = "[]"]
  have "\<not> list_ex is_pipe_read (snd (run_command ?e2 (ex_cmd None) 500 ''id''))" by blast
  ultimately show ?thesis by simp
qed

text \<open>
  C8, as stated, does not hold: the child is found running at two polls, and the pipe
  is read for the first time after the third poll has reaped it.
\<close>

theorem run_command_reads_after_last_poll:
  "run_command (ex_cmd_env 4242 0 [running 100, running 200, exited 4242] [12, 0]) (ex_cmd None) 500 ''id'' =
     (Returned 1,
      [EvPipe, EvFork, EvClose 4, EvClock,
       EvWaitpid 4242 WNOHANG, EvUsleep 100000, EvClock,
       EvWaitpid 4242 WNOHANG, EvUsleep 100000, EvClock,
       EvWaitpid 4242 WNOHANG, EvRead 3, EvRead 3, EvClose 3]) \<and>
   \<not> drains_while_polling
       (snd (run_command (ex_cmd_env 4242 0 [running 100, running 200, exited 4242] [12, 0])
               (ex_cmd None) 500 ''id''))"
  by (simp add: run_command_def run_parent_def ex_cmd_defs Let_def)


subsection \<open>Short writes in influx\<close>

lemma send_loop_short_write:
  "short_write buf s \<Longrightarrow>
   send_loop action buf timeout_left (s # ss) tr =
     Ret 0 (action\<lparr>conn_socket := - 1\<rparr>)
       (tr @ [EvWrite (conn_socket action) buf, EvLogError ''Unable to send'',
              EvClose (conn_socket action)])"
  by (auto simp: short_write_def CLOSE_def Let_def)

text \<open>
  C10. A write on the header or on the body that returns neither \<open>-1\<close> with a
  would-block \<open>errno\<close> nor the length of the buffer ends the call: whatever the state of
  the loop at that turn, the next calls are the log line and \<open>CLOSE\<close>, the socket of the
  endpoint is cleared, 0 is returned, and the turns that the environment still holds
  are never asked for, so nothing is written again. The second and third part say the
  same of \<open>influx\<close> as a whole, for the first write of the header and of the body.
\<close>

theorem influx_short_write_closes:
  "(short_write buf s \<longrightarrow>
      send_loop action buf timeout_left (s # ss) tr =
        Ret 0 (action\<lparr>conn_socket := - 1\<rparr>)
          (tr @ [EvWrite (conn_socket action) buf, EvLogError ''Unable to send'',
                 EvClose (conn_socket action)])) \<and>
   (influx_connect env action = Next (a, tl0, tr0) \<and> i_header env = s # ss \<and>
    short_write (influx_header a (influx_body actual_line)) s \<longrightarrow>
      influx env action actual_line =
        (Returned 0, a\<lparr>conn_socket := - 1\<rparr>,
         tr0 @ [EvWrite (conn_socket a) (influx_header a (influx_body actual_line)),
                EvLogError ''Unable to send'', EvClose (conn_socket a)])) \<and>
   (influx_connect env action = Next (a, tl0, tr0) \<and>
    send_loop a (influx_header a (influx_body actual_line)) tl0 (i_header env) tr0 = Next (tl1, tr1) \<and>
    i_body env = s # ss \<and> short_write (influx_body actual_line) s \<longrightarrow>
      influx env action actual_line =
        (Returned 0, a\<lparr>conn_socket := - 1\<rparr>,
         tr1 @ [EvWrite (conn_socket a) (influx_body actual_line),
                EvLogError ''Unable to send'', EvClose (conn_socket a)]))"
  by (simp add: influx_def send_loop_short_write Let_def del: send_loop.simps)

theorem influx_short_write_closes_witness:
  "influx (ex_env [wrote 40] [] []) ex_endpoint ''m'' =
     (Returned 0, ex_endpoint\<lparr>conn_socket := - 1\<rparr>,
      [EvWrite 5 (influx_header ex_endpoint (influx_body ''m'')), EvLogError ''Unable to send'',
       EvClose 5]) \<and>
   influx (ex_env [wrote 82] [wrote 0] []) ex_endpoint ''m'' =
     (Returned 0, ex_endpoint\<lparr>conn_socket := - 1\<rparr>,
      [EvWrite 5 (influx_header ex_endpoint (influx_body ''m'')), EvWrite 5 (influx_body ''m''),
       EvLogError ''Unable to send'', EvClose 5])"
proof -
  let ?h = "influx_header ex_endpoint (influx_body ''m'')"
  have c: "influx_connect (ex_env hs bs rs) ex_endpoint = Next (ex_endpoint, 1, [])" for hs bs rs
    by (simp add: influx_connect_def ex_endpoint_def Let_def)
  have s1: "short_write ?h (wrote 40)"
    using ex_header_length by (simp add: short_write_def wrote_def influx_body_eq)
  have s2: "short_write (influx_body ''m'') (wrote 0)"
    by (simp add: short_write_def wrote_def influx_body_eq)
  have hd: "send_loop ex_endpoint ?h 1 (i_header (ex_env [wrote 82] [wrote 0] [])) [] =
      Next (1, [EvWrite 5 ?h])"
    using ex_header_length
    by (simp add: ex_env_def wrote_def influx_body_eq Let_def) (simp add: ex_endpoint_def)
  from c [of "[wrote 40]" "[]" "[]"] s1
    influx_short_write_closes [where env = "ex_env [wrote 40] [] []" and action = ex_endpoint
      and a = ex_endpoint and ?tl0.0 = 1 and ?tr0.0 = "[]" and s = "wrote 40" and ss = "[]"
      and actual_line = "''m''"]
  have "influx (ex_env [wrote 40] [] []) ex_endpoint ''m'' =
     (Returned 0, ex_endpoint\<lparr>conn_socket := - 1\<rparr>,
      [] @ [EvWrite (conn_socket ex_endpoint) ?h, EvLogError ''Unable to send'',
       EvClose (conn_socket ex_endpoint)])"
    by (simp add: ex_env_def)
  moreover
  from c [of "[wrote 82]" "[wrote 0]" "[]"] s2 hd
    influx_short_write_closes [where env = "ex_env [wrote 82] [wrote 0] []" and action = ex_endpoint
      and a = ex_endpoint and ?tl0.0 = 1 and ?tr0.0 = "[]" and ?tl1.0 = 1 and ?tr1.0 = "[EvWrite 5 ?h]"
      and s = "wrote 0" and ss = "[]" and actual_line = "''m''"]
  have "influx (ex_env [wrote 82] [wrote 0] []) ex_endpoint ''m'' =
     (Returned 0, ex_endpoint\<lparr>conn_socket := - 1\<rparr>,
      [EvWrite 5 ?h] @ [EvWrite (conn_socket ex_endpoint) (influx_body ''m''),
       EvLogError ''Unable to send'', EvClose (conn_socket ex_endpoint)])"
    by (simp add: ex_env_def)
  ultimately show ?thesis by (simp add: ex_endpoint_def)
qed


subsection \<open>The header of a log file\<close>

lemma log_to_file_fs:
  "l_fopen_ok env \<Longrightarrow> log_to_file env fs al line = (r, fs', tr) \<Longrightarrow>
   map_option content (fs' (path al)) =
     Some ((case fs (path al) of None \<Rightarrow> [] | Some f \<Rightarrow> content f) @
           take (l_flushed env)
             ((if fs (path al) = None \<and> header al \<noteq> None then the (header al) @ [LF] else []) @ line @ [LF]))"
  by (auto simp: log_to_file_def fopen_append_def flush_append_def chown_file_def Let_def
      split: option.splits if_splits)

lemma log_to_file_fputs:
  "log_to_file env fs al line = (r, fs', tr) \<Longrightarrow>
   fputs_of tr =
     (if l_fopen_ok env then
        (if fs (path al) = None \<and> header al \<noteq> None then [the (header al), [LF]] else []) @ [line, [LF]]
      else [])"
  by (auto simp: log_to_file_def Let_def split: option.splits if_splits)

lemma log_to_file_twice:
  assumes "fs (path al) = None" and "header al = Some h"
    and "l_fopen_ok env1" and "l_fopen_ok env2"
    and "length h + length line1 + 2 \<le> l_flushed env1" and "length line2 + 1 \<le> l_flushed env2"
    and l1: "log_to_file env1 fs al line1 = (r1, fs1, tr1)"
    and l2: "log_to_file env2 fs1 al line2 = (r2, fs2, tr2)"
  shows "fputs_of tr1 = [h, [LF], line1, [LF]] \<and> fputs_of tr2 = [line2, [LF]] \<and>
      map_option content (fs2 (path al)) = Some (h @ [LF] @ line1 @ [LF] @ line2 @ [LF])"
proof -
  have t1: "take (l_flushed env1) (h @ LF # line1 @ [LF]) = h @ LF # line1 @ [LF]"
    using assms(5) by (intro take_all) simp
  have t2: "take (l_flushed env2) (line2 @ [LF]) = line2 @ [LF]"
    using assms(6) by (intro take_all) simp
  from assms(1-3) t1 have c1: "map_option content (fs1 (path al)) = Some (h @ [LF] @ line1 @ [LF])"
    using log_to_file_fs [OF assms(3) l1] by (simp del: take_append)
  then have ex: "fs1 (path al) \<noteq> None" by auto
  from c1 t2 have c2:
    "map_option content (fs2 (path al)) = Some (h @ [LF] @ line1 @ [LF] @ line2 @ [LF])"
    using log_to_file_fs [OF assms(4) l2]
    by (auto simp del: take_append split: option.splits)
  from assms(1-3) have p1: "fputs_of tr1 = [h, [LF], line1, [LF]]"
    using log_to_file_fputs [OF l1] by simp
  from assms(4) ex have p2: "fputs_of tr2 = [line2, [LF]]"
    using log_to_file_fputs [OF l2] by simp
  from p1 p2 c2 show ?thesis by simp
qed

text \<open>
  C7. Two calls of \<open>log_to_file\<close> on a target with a header, the first on a path that
  does not exist, both opening the file and all bytes reaching it: the first call
  writes the header and its line, the second its line only, and the file holds the
  header line and the two lines in the order of the calls. On a path that exists, a
  call writes its line and nothing else (and nothing when the file cannot be opened).
\<close>

theorem log_to_file_header_once:
  "(fs (path al) = None \<and> header al = Some h \<and> l_fopen_ok env1 \<and> l_fopen_ok env2 \<and>
    length h + length line1 + 2 \<le> l_flushed env1 \<and> length line2 + 1 \<le> l_flushed env2 \<and>
    log_to_file env1 fs al line1 = (r1, fs1, tr1) \<and>
    log_to_file env2 fs1 al line2 = (r2, fs2, tr2) \<longrightarrow>
      fputs_of tr1 = [h, [LF], line1, [LF]] \<and> fputs_of tr2 = [line2, [LF]] \<and>
      map_option content (fs2 (path al)) = Some (h @ [LF] @ line1 @ [LF] @ line2 @ [LF])) \<and>
   (fs (path al) \<noteq> None \<and> log_to_file env fs al line = (r, fs', tr) \<longrightarrow>
      fputs_of tr = (if l_fopen_ok env then [line, [LF]] else []))"
proof (rule conjI)
  show "fs (path al) = None \<and> header al = Some h \<and> l_fopen_ok env1 \<and> l_fopen_ok env2 \<and>
    length h + length line1 + 2 \<le> l_flushed env1 \<and> length line2 + 1 \<le> l_flushed env2 \<and>
    log_to_file env1 fs al line1 = (r1, fs1, tr1) \<and>
    log_to_file env2 fs1 al line2 = (r2, fs2, tr2) \<longrightarrow>
      fputs_of tr1 = [h, [LF], line1, [LF]] \<and> fputs_of tr2 = [line2, [LF]] \<and>
      map_option content (fs2 (path al)) = Some (h @ [LF] @ line1 @ [LF] @ line2 @ [LF])"
    using log_to_file_twice [of fs al h env1 env2 line1 line2 r1 fs1 tr1 r2 fs2 tr2] by blast
  show "fs (path al) \<noteq> None \<and> log_to_file env fs al line = (r, fs', tr) \<longrightarrow>
      fputs_of tr = (if l_fopen_ok env then [line, [LF]] else [])"
    using log_to_file_fputs [of env fs al line r fs' tr] by simp
qed

theorem log_to_file_header_once_witness:
  "map_option content (ex_fs2 ''/var/log/srd.log'') =
     Some (''time,event'' @ [LF] @ ''up'' @ [LF] @ ''down'' @ [LF]) \<and>
   fputs_of (snd (snd (log_to_file ex_log_env ex_fs1 ex_log_plain ''down''))) = [''down'', [LF]]"
proof -
  obtain r1 tr1 where l1: "log_to_file ex_log_env Map.empty ex_log_plain ''up'' = (r1, ex_fs1, tr1)"
    by (cases "log_to_file ex_log_env Map.empty ex_log_plain ''up''") (simp add: ex_fs1_def)
  obtain r2 tr2 where l2: "log_to_file ex_log_env ex_fs1 ex_log_plain ''down'' = (r2, ex_fs2, tr2)"
    by (cases "log_to_file ex_log_env ex_fs1 ex_log_plain ''down''") (simp add: ex_fs2_def)
  have h: "Map.empty (path ex_log_plain) = None \<and> header ex_log_plain = Some ''time,event'' \<and>
    l_fopen_ok ex_log_env \<and> l_fopen_ok ex_log_env \<and>
    length ''time,event'' + length ''up'' + 2 \<le> l_flushed ex_log_env \<and>
    length ''down'' + 1 \<le> l_flushed ex_log_env"
    by (simp add: ex_log_plain_def ex_log_env_def)
  have e: "ex_fs1 (path ex_log_plain) \<noteq> None"
    by (simp add: ex_fs1_def log_to_file_def ex_log_plain_def ex_log_env_def fopen_append_def
        flush_append_def Let_def)
  from h l1 l2
    log_to_file_header_once [where fs = Map.empty and al = ex_log_plain and h = "''time,event''"
      and ?env1.0 = ex_log_env and ?env2.0 = ex_log_env and ?line1.0 = "''up''" and ?line2.0 = "''down''"
      and ?r1.0 = r1 and ?fs1.0 = ex_fs1 and ?tr1.0 = tr1 and ?r2.0 = r2 and ?fs2.0 = ex_fs2 and ?tr2.0 = tr2]
  have "map_option content (ex_fs2 (path ex_log_plain)) =
      Some (''time,event'' @ [LF] @ ''up'' @ [LF] @ ''down'' @ [LF])" by blast
  moreover
  from e l2
    log_to_file_header_once [where fs = ex_fs1 and al = ex_log_plain and env = ex_log_env
      and line = "''down''" and r = r2 and fs' = ex_fs2 and tr = tr2]
  have "fputs_of tr2 = (if l_fopen_ok ex_log_env then [''down'', [LF]] else [])" by blast
  ultimately show ?thesis using l2 by (simp add: ex_log_plain_def ex_log_env_def)
qed



end
